theory Spec2Isabelle
  imports Complex_Main
begin

section \<open>Geometries and the geometry library\<close>

text \<open>
  The dashboard (\<^verbatim>\<open>app.py\<close>) reads an uploaded feature collection into a frame, checks
  every geometry, tries to fix the frame when a geometry is invalid, looks for duplicate
  geometries, draws a map and publishes one event (\<^verbatim>\<open>kafka_integration.py\<close>).

  A geometry is one of the GeoJSON geometry types. Two geometries are equal when their
  type and their ordered coordinates are equal, which is the equality of the datatype.
  \<open>Polygon []\<close> is the empty polygon (\<^verbatim>\<open>POLYGON EMPTY\<close>).
\<close>

type_synonym coord = "real \<times> real"

datatype geometry =
    Point coord
  | LineString "coord list"
  | Polygon "coord list list"
  | MultiPoint "coord list"
  | MultiLineString "coord list list"
  | MultiPolygon "coord list list list"
  | GeometryCollection "geometry list"

fun is_empty :: "geometry \<Rightarrow> bool" where
  "is_empty (Point c) = False"
| "is_empty (LineString cs) = (cs = [])"
| "is_empty (Polygon rings) = (rings = [])"
| "is_empty (MultiPoint cs) = (cs = [])"
| "is_empty (MultiLineString ls) = (ls = [])"
| "is_empty (MultiPolygon ps) = (ps = [])"
| "is_empty (GeometryCollection gs) = list_all is_empty gs"

text \<open>
  The validity test, its explanation, the zero-distance buffer and the WKT text are
  Shapely's (\<^verbatim>\<open>geom.is_valid\<close>, \<^verbatim>\<open>explain_validity(geom)\<close>, \<^verbatim>\<open>geom.buffer(0)\<close>,
  \<^verbatim>\<open>geom.wkt\<close>). They are not part of the program; the program is modelled over any such
  library.
\<close>

record shapely =
  is_valid :: "geometry \<Rightarrow> bool"
  explain_validity :: "geometry \<Rightarrow> string"
  buffer0 :: "geometry \<Rightarrow> geometry"
  to_wkt :: "geometry \<Rightarrow> string"

section \<open>Validation of one geometry\<close>

text \<open>
  \<^verbatim>\<open>parallel_validate(geom)\<close> returns a dictionary with the keys \<^verbatim>\<open>valid\<close>, \<^verbatim>\<open>issue\<close> and
  \<^verbatim>\<open>wkt\<close>; \<^verbatim>\<open>issue\<close> is \<^verbatim>\<open>None\<close> for a valid geometry.
\<close>

record verdict =
  valid :: bool
  issue :: "string option"
  wkt :: string

definition parallel_validate :: "shapely \<Rightarrow> geometry \<Rightarrow> verdict" where
  "parallel_validate lib geom =
     \<lparr> valid = is_valid lib geom,
       issue = (if is_valid lib geom then None else Some (explain_validity lib geom)),
       wkt = to_wkt lib geom \<rparr>"

section \<open>The thread pool\<close>

text \<open>
  \<^verbatim>\<open>list(executor.map(parallel_validate, gdf.geometry))\<close> submits one task per geometry,
  numbered in input order. Workers finish the tasks in some order, the completion order
  \<open>sched\<close>; finishing task \<open>i\<close> stores its result in future \<open>i\<close>. The list is then
  built by reading the futures in submission order. Reading a future whose task never
  finishes waits forever: the call does not return, which is the value \<open>None\<close>.
\<close>

definition complete_task :: "('a \<Rightarrow> 'b) \<Rightarrow> 'a list \<Rightarrow> nat \<Rightarrow> (nat \<rightharpoonup> 'b) \<Rightarrow> (nat \<rightharpoonup> 'b)" where
  "complete_task f xs i futures =
     (if i < length xs then futures(i \<mapsto> f (xs ! i)) else futures)"

fun gather :: "(nat \<rightharpoonup> 'b) \<Rightarrow> nat list \<Rightarrow> 'b list option" where
  "gather futures [] = Some []"
| "gather futures (i # rest) =
     (case futures i of
        None \<Rightarrow> None
      | Some r \<Rightarrow> (case gather futures rest of None \<Rightarrow> None | Some rs \<Rightarrow> Some (r # rs)))"

definition executor_map :: "('a \<Rightarrow> 'b) \<Rightarrow> nat list \<Rightarrow> 'a list \<Rightarrow> 'b list option" where
  "executor_map f sched xs =
     gather (fold (complete_task f xs) sched Map.empty) [0..<length xs]"

section \<open>The frame\<close>

text \<open>
  A row of the frame \<^verbatim>\<open>gdf\<close>: its index label, its geometry, the columns \<^verbatim>\<open>valid\<close> and
  \<^verbatim>\<open>issue\<close> (lines 85-86) and, once a fix was tried, the columns \<^verbatim>\<open>geometry_fixed\<close> and
  \<^verbatim>\<open>valid_fixed\<close> (lines 100-102). A column the frame does not have is \<open>None\<close>. The
  attribute columns of the features are never read and are left out.
\<close>

record row =
  index :: nat
  geometry :: geometry
  col_valid :: bool
  col_issue :: "string option"
  geometry_fixed :: "geometry option"
  valid_fixed :: "bool option"

datatype exn = Exception string

text \<open>
  Lines 85-86: the verdicts become two columns. Assigning a list whose length differs
  from the frame's raises \<^verbatim>\<open>ValueError\<close>.
\<close>

definition new_row :: "nat \<Rightarrow> geometry \<Rightarrow> verdict \<Rightarrow> row" where
  "new_row i g res =
     \<lparr> index = i, geometry = g, col_valid = valid res, col_issue = issue res,
       geometry_fixed = None, valid_fixed = None \<rparr>"

definition assign_verdicts :: "geometry list \<Rightarrow> verdict list \<Rightarrow> exn + row list" where
  "assign_verdicts gs results =
     (if length results = length gs
      then Inr (map (\<lambda>(i, g, res). new_row i g res) (zip [0..<length gs] (zip gs results)))
      else Inl (Exception ''ValueError''))"

text \<open>
  The geometry of the row labelled \<open>i\<close>, when the frame has such a row
  (\<^verbatim>\<open>gdf.geometry.get(i)\<close>).
\<close>

definition final_geometry :: "row list \<Rightarrow> nat \<Rightarrow> geometry option" where
  "final_geometry frame i = map_of (map (\<lambda>r. (index r, geometry r)) frame) i"

section \<open>What the program shows, logs and sends\<close>

text \<open>
  Every call that shows a widget, writes a log line or talks to the producer is one
  effect, kept in the order of the calls. A formatted string is kept as its parts. A
  table is kept as the rows it shows: index label and the shown column. Pictographs at
  the start of the messages are left out.
\<close>

datatype level = INFO | WARNING | ERROR

record event =
  filename :: string
  timestamp :: string
  processing_time :: real
  total_features :: nat

datatype part = S string | N nat | T real | E exn | Ev event

datatype table =
    Attribute_table "nat list"
  | Issue_table "(nat \<times> string option) list"
  | Geometry_table "(nat \<times> geometry) list"

datatype effect =
    St_subheader string
  | St_dataframe table
  | St_warning "part list"
  | St_success "part list"
  | St_error "part list"
  | St_info "part list"
  | St_folium "geometry list"
  | Logger level "part list"
  | Logging level "part list"
  | Producer_send string event
  | Producer_flush



section \<open>Fixing invalid geometries (lines 88-120)\<close>

definition buffer_all :: "shapely \<Rightarrow> row list \<Rightarrow> row list" where
  "buffer_all lib frame = map (\<lambda>r. r\<lparr>geometry_fixed := Some (buffer0 lib (geometry r))\<rparr>) frame"

definition check_fixed :: "shapely \<Rightarrow> row list \<Rightarrow> row list" where
  "check_fixed lib frame =
     map (\<lambda>r. r\<lparr>valid_fixed := map_option (is_valid lib) (geometry_fixed r)\<rparr>) frame"

text \<open>
  \<^verbatim>\<open>gdf.set_geometry('geometry_fixed', inplace=True, drop=True)\<close>: the fixed column becomes
  the geometry column and is dropped under its old name.
\<close>

definition set_geometry :: "row list \<Rightarrow> row list" where
  "set_geometry frame =
     map (\<lambda>r. case geometry_fixed r of
                 Some g \<Rightarrow> r\<lparr>geometry := g, geometry_fixed := None\<rparr>
               | None \<Rightarrow> r) frame"

definition fix_invalid_geometries :: "shapely \<Rightarrow> row list \<Rightarrow> row list \<times> effect list" where
  "fix_invalid_geometries lib frame =
     (let invalid_geometries = filter (\<lambda>r. \<not> col_valid r) frame in
      if invalid_geometries \<noteq> [] then
        (let shown = [St_warning [S ''Detected '', N (length invalid_geometries), S '' invalid geometries.''],
                      Logger WARNING [S ''Detected '', N (length invalid_geometries), S '' invalid geometries.''],
                      St_dataframe (Issue_table (take 10 (map (\<lambda>r. (index r, col_issue r)) invalid_geometries)))];
             frame_fixed = check_fixed lib (buffer_all lib frame);
             still_invalid = filter (\<lambda>r. valid_fixed r = Some False) frame_fixed
         in if still_invalid = [] then
              (set_geometry frame_fixed,
               shown @ [St_success [S ''All geometries successfully fixed using buffer(0).'']])
            else
              (set_geometry (filter (\<lambda>r. valid_fixed r = Some True) frame_fixed),
               shown @ [St_error [N (length still_invalid), S '' geometries remain invalid after fix attempt.''],
                        Logger ERROR [N (length still_invalid), S '' geometries remain invalid after attempted fixes.''],
                        St_dataframe (Geometry_table (take 10 (map (\<lambda>r. (index r, geometry r)) still_invalid)))]))
      else
        (frame, [St_success [S ''All geometries are valid.''],
                 Logger INFO [S ''All geometries are valid initially.'']]))"

section \<open>Duplicate geometries (lines 122-135)\<close>

text \<open>
  \<^verbatim>\<open>gdf.duplicated(subset='geometry', keep=False)\<close> marks in one pass over the column:
  a table maps every value seen to the position of its first occurrence; a value found
  in the table marks that position and the current one, a new value is entered with the
  current position, which is left unmarked.
\<close>

fun duplicated_loop :: "'a list \<Rightarrow> nat \<Rightarrow> ('a \<rightharpoonup> nat) \<Rightarrow> bool list \<Rightarrow> bool list" where
  "duplicated_loop [] i seen out = out"
| "duplicated_loop (v # vs) i seen out =
     (case seen v of
        Some k \<Rightarrow> duplicated_loop vs (Suc i) seen (out[k := True, i := True])
      | None \<Rightarrow> duplicated_loop vs (Suc i) (seen(v \<mapsto> i)) (out[i := False]))"

definition duplicated :: "'a list \<Rightarrow> bool list" where
  "duplicated vs = duplicated_loop vs 0 Map.empty (replicate (length vs) False)"

definition duplicates :: "row list \<Rightarrow> bool list" where
  "duplicates frame = duplicated (map geometry frame)"

definition duplicate_geometries :: "row list \<Rightarrow> row list" where
  "duplicate_geometries frame = map fst (filter snd (zip frame (duplicates frame)))"

definition duplicate_detection :: "row list \<Rightarrow> effect list" where
  "duplicate_detection frame =
     St_subheader ''Duplicate Geometry Detection'' #
     (if duplicate_geometries frame \<noteq> [] then
        [St_warning [S ''Detected '', N (length (duplicate_geometries frame)), S '' duplicate geometries.''],
         Logger WARNING [S ''Detected '', N (length (duplicate_geometries frame)), S '' duplicate geometries.''],
         St_dataframe (Attribute_table (take 10 (map index (duplicate_geometries frame))))]
      else
        [St_success [S ''No duplicate geometries detected.''],
         Logger INFO [S ''No duplicate geometries detected.'']])"

section \<open>The map (lines 137-153)\<close>

text \<open>
  The clock and the map widgets are outside the program. \<open>draw_map\<close> stands for lines
  141-147 (the centroid of the union, the Folium map and its rendering); it answers with
  the exception it raised, if any.
\<close>

record env =
  event_timestamp :: string
  elapsed :: real
  draw_map :: "geometry list \<Rightarrow> exn option"

definition map_visualization :: "env \<Rightarrow> row list \<Rightarrow> effect list \<times> exn option" where
  "map_visualization world frame =
     (if frame \<noteq> [] then
        (case draw_map world (map geometry frame) of
           Some e \<Rightarrow> ([St_subheader ''Interactive Map''], Some e)
         | None \<Rightarrow>
            ([St_subheader ''Interactive Map'',
              St_folium (map geometry frame),
              St_success [S ''Geometries visualized successfully!''],
              Logger INFO [S ''Map visualization completed successfully.'']], None))
      else
        ([St_subheader ''Interactive Map'',
          St_error [S ''No valid geometries to visualize.''],
          Logger ERROR [S ''No valid geometries to visualize after processing.'']], None))"

section \<open>Publishing the event\<close>

text \<open>
  From \<^verbatim>\<open>kafka_integration.py\<close>. A producer answers a call of \<^verbatim>\<open>send\<close> or \<^verbatim>\<open>flush\<close>
  with the exception it raised, if any. \<^verbatim>\<open>get_kafka_producer\<close> gives \<^verbatim>\<open>None\<close> when the
  producer could not be created. A call of \<^verbatim>\<open>send_kafka_event\<close> ends with an exception
  or with the effects of the call; its \<^verbatim>\<open>except Exception\<close> clause catches what the
  producer raises.
\<close>

record producer =
  send :: "string \<Rightarrow> event \<Rightarrow> exn option"
  flush :: "exn option"

definition send_kafka_event :: "producer option \<Rightarrow> string \<Rightarrow> event \<Rightarrow> exn + effect list" where
  "send_kafka_event producer topic event =
     (case producer of
        None \<Rightarrow> Inr [Logging ERROR [S ''Kafka producer is not initialized.'']]
      | Some p \<Rightarrow>
          (case send p topic event of
             Some e \<Rightarrow> Inr [Logging ERROR [S ''Error sending Kafka event: '', E e]]
           | None \<Rightarrow>
              (case flush p of
                 Some e \<Rightarrow> Inr [Producer_send topic event,
                                Logging ERROR [S ''Error sending Kafka event: '', E e]]
               | None \<Rightarrow> Inr [Producer_send topic event, Producer_flush,
                              Logging INFO [S ''Kafka event sent: '', Ev event]])))"

section \<open>One run of the script (lines 55-195)\<close>

text \<open>
  An upload is the file's name and what \<^verbatim>\<open>gpd.read_file(file)\<close> makes of it: an exception
  or the geometry column of the frame, in file order.

  A run leaves behind the frame \<^verbatim>\<open>gdf\<close> as last assigned, the effects in order, the
  exception the outer \<^verbatim>\<open>except Exception\<close> clause caught, if any, and the event dictionary
  of line 181, if the run got there. The version history and the comment box (lines
  66-69 and 159-177) only read and write the session state and are left out.
\<close>

record upload =
  upload_name :: string
  upload_frame :: "exn + geometry list"

record outcome =
  gdf :: "row list"
  effects :: "effect list"
  raised :: "exn option"
  summary :: "event option"

definition caught :: "exn \<Rightarrow> row list \<Rightarrow> effect list \<Rightarrow> outcome" where
  "caught e frame effs =
     \<lparr> gdf = frame,
       effects = effs @ [St_error [S ''Error processing GeoJSON file: '', E e],
                         Logger ERROR [S ''Error processing GeoJSON file: '', E e]],
       raised = Some e,
       summary = None \<rparr>"

definition publish :: "env \<Rightarrow> producer option \<Rightarrow> string \<Rightarrow> row list \<Rightarrow> effect list \<Rightarrow> outcome" where
  "publish world producer name frame effs =
     (let shown = effs @ [St_info [S ''Processing time: '', T (elapsed world), S '' seconds'']];
          event = \<lparr> filename = name, timestamp = event_timestamp world,
                    processing_time = elapsed world, total_features = length frame \<rparr>
      in case send_kafka_event producer ''geojson_upload_events'' event of
           Inl e \<Rightarrow> caught e frame shown
         | Inr sent \<Rightarrow>
             \<lparr> gdf = frame, effects = shown @ sent, raised = None, summary = Some event \<rparr>)"

definition process :: "shapely \<Rightarrow> env \<Rightarrow> producer option \<Rightarrow> string \<Rightarrow> row list \<Rightarrow> effect list \<Rightarrow> outcome" where
  "process lib world producer name frame effs =
     (case fix_invalid_geometries lib frame of
        (kept, fixing) \<Rightarrow>
          (case map_visualization world kept of
             (drawing, Some e) \<Rightarrow>
               caught e kept (effs @ fixing @ duplicate_detection kept @ drawing)
           | (drawing, None) \<Rightarrow>
               publish world producer name kept
                 (effs @ fixing @ duplicate_detection kept @ drawing)))"

definition data_preview :: "geometry list \<Rightarrow> effect list" where
  "data_preview gs =
     [Logger INFO [S ''GeoJSON file loaded successfully.''],
      St_subheader ''Data Preview (Raw Data)'',
      St_dataframe (Attribute_table (take 10 [0..<length gs])),
      St_subheader ''Geometry Validation (Parallel Processing)'']"

definition run :: "shapely \<Rightarrow> env \<Rightarrow> producer option \<Rightarrow> nat list \<Rightarrow> upload option \<Rightarrow> outcome option" where
  "run lib world producer sched file =
     (case file of
        None \<Rightarrow> Some \<lparr> gdf = [], effects = [], raised = None, summary = None \<rparr>
      | Some up \<Rightarrow>
          (case upload_frame up of
             Inl e \<Rightarrow> Some (caught e [] [])
           | Inr gs \<Rightarrow>
              (case executor_map (parallel_validate lib) sched gs of
                 None \<Rightarrow> None
               | Some results \<Rightarrow>
                  (case assign_verdicts gs results of
                     Inl e \<Rightarrow> Some (caught e [] (data_preview gs))
                   | Inr frame \<Rightarrow>
                       Some (process lib world producer (upload_name up) frame (data_preview gs))))))"

text \<open>
  The frame after lines 79-86 when every task of the pool has finished: row \<open>i\<close> holds
  geometry \<open>i\<close> and its verdict.
\<close>

definition validated :: "shapely \<Rightarrow> geometry list \<Rightarrow> row list" where
  "validated lib gs =
     map (\<lambda>(i, g). new_row i g (parallel_validate lib g)) (zip [0..<length gs] gs)"

section \<open>A small library instance and sample geometries\<close>

text \<open>
  Concrete values on which the definitions are evaluated. \<open>sample_lib\<close> is one
  library: the bowtie of Shapely's manual is invalid and its zero-distance buffer is the
  pair of triangles the manual shows; the buffer of a point or a line is the empty
  polygon; every other geometry is valid and is its own buffer.
\<close>

definition square :: geometry where
  "square = Polygon [[(0, 0), (1, 0), (1, 1), (0, 1), (0, 0)]]"

definition bowtie :: geometry where
  "bowtie = Polygon [[(0, 0), (0, 2), (1, 1), (2, 2), (2, 0), (1, 1), (0, 0)]]"

definition bowtie_fixed :: geometry where
  "bowtie_fixed = MultiPolygon [[[(0, 0), (0, 2), (1, 1), (0, 0)]], [[(1, 1), (2, 2), (2, 0), (1, 1)]]]"

definition sample_lib :: shapely where
  "sample_lib =
     \<lparr> is_valid = (\<lambda>g. g \<noteq> bowtie),
       explain_validity = (\<lambda>g. if g = bowtie then ''Ring Self-intersection[1 1]''
                               else ''Valid Geometry''),
       buffer0 = (\<lambda>g. case g of
                        Point c \<Rightarrow> Polygon []
                      | LineString cs \<Rightarrow> Polygon []
                      | _ \<Rightarrow> if g = bowtie then bowtie_fixed else g),
       to_wkt = (\<lambda>g. []) \<rparr>"

definition sample_env :: env where
  "sample_env = \<lparr> event_timestamp = ''2025-01-01T00:00:00'', elapsed = 1, draw_map = (\<lambda>gs. None) \<rparr>"

section \<open>Properties of the validation stage\<close>

lemma complete_task_other:
  "j \<noteq> i \<Longrightarrow> complete_task f xs i futures j = futures j"
  by (simp add: complete_task_def)

lemma complete_task_same:
  "i < length xs \<Longrightarrow> complete_task f xs i futures i = Some (f (xs ! i))"
  by (simp add: complete_task_def)

lemma fold_complete_task_keeps:
  "futures j = Some (f (xs ! j)) \<Longrightarrow>
   fold (complete_task f xs) sched futures j = Some (f (xs ! j))"
proof (induction sched arbitrary: futures)
  case Nil
  then show ?case by simp
next
  case (Cons i sched)
  have "complete_task f xs i futures j = Some (f (xs ! j))"
    using Cons.prems by (cases "j = i") (auto simp: complete_task_def)
  then show ?case using Cons.IH by simp
qed

lemma fold_complete_task_done:
  "j \<in> set sched \<Longrightarrow> j < length xs \<Longrightarrow>
   fold (complete_task f xs) sched futures j = Some (f (xs ! j))"
proof (induction sched arbitrary: futures)
  case Nil
  then show ?case by simp
next
  case (Cons i sched)
  show ?case
  proof (cases "j = i")
    case True
    then have "complete_task f xs i futures j = Some (f (xs ! j))"
      using Cons.prems(2) by (simp add: complete_task_same)
    then show ?thesis by (simp add: fold_complete_task_keeps)
  next
    case False
    then have "j \<in> set sched" using Cons.prems(1) by simp
    then show ?thesis using Cons.IH Cons.prems(2) by simp
  qed
qed

lemma gather_all_done:
  "list_all (\<lambda>i. futures i = Some (g i)) idxs \<Longrightarrow> gather futures idxs = Some (map g idxs)"
  by (induction idxs) auto

lemma executor_map_complete:
  assumes "{..<length xs} \<subseteq> set sched"
  shows "executor_map f sched xs = Some (map f xs)"
proof -
  let ?futures = "fold (complete_task f xs) sched Map.empty"
  have "list_all (\<lambda>i. ?futures i = Some (f (xs ! i))) [0..<length xs]"
    using assms by (auto simp: list_all_iff intro!: fold_complete_task_done)
  then have "gather ?futures [0..<length xs] = Some (map (\<lambda>i. f (xs ! i)) [0..<length xs])"
    by (rule gather_all_done)
  also have "map (\<lambda>i. f (xs ! i)) [0..<length xs] = map f xs"
    by (intro nth_equalityI) simp_all
  finally show ?thesis by (simp add: executor_map_def)
qed

section \<open>Properties of the duplicate marking\<close>


lemma duplicated_loop_length:
  "length (duplicated_loop vs i seen out) = length out"
  by (induction vs arbitrary: i seen out) (auto split: option.splits)

lemma snoc_dup_new:
  assumes "v \<notin> set pre" "j < length pre"
  shows "(\<exists>j'<Suc (length pre). j' \<noteq> j \<and> (pre @ [v]) ! j' = (pre @ [v]) ! j)
       = (\<exists>j'<length pre. j' \<noteq> j \<and> pre ! j' = pre ! j)"
proof -
  have "pre ! j \<noteq> v" using assms by (metis nth_mem)
  then show ?thesis using assms(2)
    by (auto simp: nth_append less_Suc_eq)
qed

lemma snoc_dup_last:
  "(\<exists>j'<Suc (length pre). j' \<noteq> length pre \<and> (pre @ [v]) ! j' = (pre @ [v]) ! length pre)
       = (v \<in> set pre)"
  by (auto simp: nth_append less_Suc_eq in_set_conv_nth)

lemma snoc_dup_old:
  assumes "j < length pre"
  shows "(\<exists>j'<Suc (length pre). j' \<noteq> j \<and> (pre @ [v]) ! j' = (pre @ [v]) ! j)
       = ((\<exists>j'<length pre. j' \<noteq> j \<and> pre ! j' = pre ! j) \<or> pre ! j = v)"
proof -
  have "(\<exists>j'<length pre. j' \<noteq> j \<and> (pre @ [v]) ! j' = (pre @ [v]) ! j)
      = (\<exists>j'<length pre. j' \<noteq> j \<and> pre ! j' = pre ! j)"
    using assms by (simp add: nth_append cong: conj_cong)
  moreover have "(length pre \<noteq> j \<and> (pre @ [v]) ! length pre = (pre @ [v]) ! j) = (pre ! j = v)"
    using assms by (auto simp: nth_append)
  ultimately show ?thesis
    unfolding Ex_less_Suc by blast
qed

lemma duplicated_loop_correct:
  assumes "length out = length pre + length vs"
    and "\<And>v k. seen v = Some k \<Longrightarrow> k < length pre \<and> pre ! k = v"
    and "\<And>v. seen v = None \<Longrightarrow> v \<notin> set pre"
    and "\<And>j. j < length pre \<Longrightarrow> out ! j = (\<exists>j'<length pre. j' \<noteq> j \<and> pre ! j' = pre ! j)"
    and "j < length pre + length vs"
  shows "duplicated_loop vs (length pre) seen out ! j =
         (\<exists>j'<length pre + length vs. j' \<noteq> j \<and> (pre @ vs) ! j' = (pre @ vs) ! j)"
  using assms
proof (induction vs arbitrary: pre seen out)
  case Nil
  then show ?case by simp
next
  case (Cons v vs)
  let ?i = "length pre"
  let ?pre = "pre @ [v]"
  have len: "length ?pre = Suc ?i" by simp
  have i_lt: "?i < length out" using Cons.prems(1) by simp
  have e: "j < length ?pre + length vs" using Cons.prems(5) by simp
  show ?case
  proof (cases "seen v")
    case None
    have notin: "v \<notin> set pre" using Cons.prems(3) None by simp
    let ?seen = "seen(v \<mapsto> ?i)" and ?out = "out[?i := False]"
    have a: "length ?out = length ?pre + length vs" using Cons.prems(1) by simp
    have b: "k' < length ?pre \<and> ?pre ! k' = w" if "?seen w = Some k'" for w k'
    proof (cases "w = v")
      case True
      then have "k' = ?i" using that by simp
      then show ?thesis using True by simp
    next
      case False
      then have "seen w = Some k'" using that by simp
      then show ?thesis using Cons.prems(2)[of w k'] by (simp add: nth_append)
    qed
    have c: "w \<notin> set ?pre" if "?seen w = None" for w
      using Cons.prems(3)[of w] that by (cases "w = v") simp_all
    have d: "?out ! j = (\<exists>j'<length ?pre. j' \<noteq> j \<and> ?pre ! j' = ?pre ! j)"
      if "j < length ?pre" for j
    proof (cases "j = ?i")
      case True
      then show ?thesis using notin i_lt snoc_dup_last[of pre v] by simp
    next
      case False
      then have "j < ?i" using that by simp
      then show ?thesis
        using False Cons.prems(4)[of j] snoc_dup_new[OF notin, of j] by simp
    qed
    have "duplicated_loop vs (length ?pre) ?seen ?out ! j =
         (\<exists>j'<length ?pre + length vs. j' \<noteq> j \<and> (?pre @ vs) ! j' = (?pre @ vs) ! j)"
      by (rule Cons.IH[OF a b c d e])
    then show ?thesis using None by simp
  next
    case (Some k)
    have k: "k < ?i" "pre ! k = v" using Cons.prems(2)[OF Some] by simp_all
    then have vin: "v \<in> set pre" by (metis nth_mem)
    let ?out = "out[k := True, ?i := True]"
    have a: "length ?out = length ?pre + length vs" using Cons.prems(1) by simp
    have b: "k' < length ?pre \<and> ?pre ! k' = w" if "seen w = Some k'" for w k'
      using Cons.prems(2)[OF that] by (simp add: nth_append)
    have c: "w \<notin> set ?pre" if "seen w = None" for w
      using Cons.prems(3)[OF that] that Some by auto
    have d: "?out ! j = (\<exists>j'<length ?pre. j' \<noteq> j \<and> ?pre ! j' = ?pre ! j)"
      if "j < length ?pre" for j
    proof (cases "j = ?i")
      case True
      then show ?thesis using vin i_lt snoc_dup_last[of pre v] by simp
    next
      case False
      then have lt: "j < ?i" using that by simp
      show ?thesis
      proof (cases "j = k")
        case True
        then show ?thesis
          using lt k i_lt snoc_dup_old[OF lt, of v] by simp
      next
        case jk: False
        have "out ! j = ((\<exists>j'<?i. j' \<noteq> j \<and> pre ! j' = pre ! j) \<or> pre ! j = v)"
          using Cons.prems(4)[OF lt] k jk by auto
        then show ?thesis
          using lt jk False snoc_dup_old[OF lt, of v] by simp
      qed
    qed
    have "duplicated_loop vs (length ?pre) seen ?out ! j =
         (\<exists>j'<length ?pre + length vs. j' \<noteq> j \<and> (?pre @ vs) ! j' = (?pre @ vs) ! j)"
      by (rule Cons.IH[OF a b c d e])
    then show ?thesis using Some by simp
  qed
qed

lemma duplicated_nth:
  assumes "j < length vs"
  shows "duplicated vs ! j = (\<exists>j'<length vs. j' \<noteq> j \<and> vs ! j' = vs ! j)"
  using duplicated_loop_correct[of "replicate (length vs) False" "[]" vs Map.empty j] assms
  by (simp add: duplicated_def)

lemma length_duplicated: "length (duplicated vs) = length vs"
  by (simp add: duplicated_def duplicated_loop_length)


section \<open>Properties of the frame\<close>

lemma assign_verdicts_validated:
  "assign_verdicts gs (map (parallel_validate lib) gs) = Inr (validated lib gs)"
proof -
  have "map (\<lambda>(i, g, res). new_row i g res) (zip [0..<length gs] (zip gs (map (parallel_validate lib) gs)))
      = map (\<lambda>(i, g). new_row i g (parallel_validate lib g)) (zip [0..<length gs] gs)"
    by (intro nth_equalityI) simp_all
  then show ?thesis by (simp add: assign_verdicts_def validated_def)
qed

lemma run_complete:
  assumes "upload_frame up = Inr gs" and "{..<length gs} \<subseteq> set sched"
  shows "run lib world producer sched (Some up) =
         Some (process lib world producer (upload_name up) (validated lib gs) (data_preview gs))"
  using assms(1) executor_map_complete[OF assms(2), of "parallel_validate lib"]
  by (simp add: run_def assign_verdicts_validated)

lemma pairs_validated:
  "map (\<lambda>r. (index r, geometry r)) (validated lib gs) = zip [0..<length gs] gs"
  by (intro nth_equalityI) (simp_all add: validated_def new_row_def)

lemma buffered_validated:
  "map (\<lambda>r. (index r, buffer0 lib (geometry r))) (validated lib gs)
   = zip [0..<length gs] (map (buffer0 lib) gs)"
  by (intro nth_equalityI) (simp_all add: validated_def new_row_def)

lemma col_valid_validated:
  "list_all col_valid (validated lib gs) = list_all (is_valid lib) gs"
  by (simp add: list_all_length validated_def new_row_def parallel_validate_def)

lemma unfixed_validated:
  "list_all (\<lambda>r. geometry_fixed r = None \<and> valid_fixed r = None) (validated lib gs)"
  by (auto simp: validated_def new_row_def list_all_iff)

section \<open>Properties of the fixing stage\<close>

lemma filter_fixed_all:
  "filter (\<lambda>r. valid_fixed r = Some False) (check_fixed lib (buffer_all lib frame)) = [] \<Longrightarrow>
   filter (\<lambda>r. valid_fixed r = Some True) (check_fixed lib (buffer_all lib frame))
   = check_fixed lib (buffer_all lib frame)"
  by (auto simp: check_fixed_def buffer_all_def filter_empty_conv filter_id_conv)

lemma fst_fix_invalid_geometries:
  "fst (fix_invalid_geometries lib frame) =
     (if list_all col_valid frame then frame
      else set_geometry (filter (\<lambda>r. valid_fixed r = Some True) (check_fixed lib (buffer_all lib frame))))"
proof (cases "list_all col_valid frame")
  case True
  then have "filter (\<lambda>r. \<not> col_valid r) frame = []"
    by (simp add: filter_empty_conv list_all_iff)
  then show ?thesis using True by (simp add: fix_invalid_geometries_def)
next
  case False
  then have "filter (\<lambda>r. \<not> col_valid r) frame \<noteq> []"
    by (simp add: filter_empty_conv list_all_iff)
  then show ?thesis using False filter_fixed_all[of lib frame]
    by (simp add: fix_invalid_geometries_def Let_def)
qed

lemma pairs_kept:
  "map (\<lambda>r. (index r, geometry r))
     (set_geometry (filter (\<lambda>r. valid_fixed r = Some True) (check_fixed lib (buffer_all lib frame))))
   = filter (\<lambda>(i, g). is_valid lib g) (map (\<lambda>r. (index r, buffer0 lib (geometry r))) frame)"
  by (induction frame) (auto simp: set_geometry_def check_fixed_def buffer_all_def)

lemma columns_kept:
  "list_all (\<lambda>r. valid_fixed r = Some True)
     (set_geometry (filter (\<lambda>r. valid_fixed r = Some True) (check_fixed lib (buffer_all lib frame))))"
  by (induction frame) (auto simp: set_geometry_def check_fixed_def buffer_all_def)

lemma gdf_process:
  "gdf (process lib world producer name frame effs) = fst (fix_invalid_geometries lib frame)"
  by (simp add: process_def publish_def caught_def Let_def
           split: prod.splits option.splits sum.splits)

lemma map_of_kept_enumerate:
  assumes "i < length ys"
  shows "map_of (filter (\<lambda>(k, y). P y) (zip [0..<length ys] ys)) i
         = (if P (ys ! i) then Some (ys ! i) else None)"
proof -
  let ?kept = "filter (\<lambda>(k, y). P y) (zip [0..<length ys] ys)"
  have d: "distinct (map fst ?kept)"
    by (rule distinct_map_filter) simp
  have only: "y = ys ! i" if "(i, y) \<in> set ?kept" for y
    using that by (auto simp: set_zip)
  show ?thesis
  proof (cases "P (ys ! i)")
    case True
    have "zip [0..<length ys] ys ! i \<in> set (zip [0..<length ys] ys)"
      using assms by (intro nth_mem) simp
    then have "(i, ys ! i) \<in> set ?kept"
      using assms True by simp
    then show ?thesis using d True by simp
  next
    case False
    have "i \<notin> fst ` set ?kept"
      using only False by auto
    then show ?thesis using False by (simp add: map_of_eq_None_iff)
  qed
qed

lemma map_of_enumerate:
  "i < length ys \<Longrightarrow> map_of (zip [0..<length ys] ys) i = Some (ys ! i)"
  using map_of_zip_nth[of "[0..<length ys]" ys i] by simp

lemma final_geometry_validated:
  "i < length gs \<Longrightarrow> final_geometry (validated lib gs) i = Some (gs ! i)"
  by (simp add: final_geometry_def pairs_validated map_of_enumerate)

lemma final_geometry_kept:
  assumes "i < length gs"
  shows "final_geometry
           (set_geometry (filter (\<lambda>r. valid_fixed r = Some True)
              (check_fixed lib (buffer_all lib (validated lib gs))))) i
         = (if is_valid lib (buffer0 lib (gs ! i)) then Some (buffer0 lib (gs ! i)) else None)"
  using assms map_of_kept_enumerate[of i "map (buffer0 lib) gs" "is_valid lib"]
  by (simp add: final_geometry_def pairs_kept buffered_validated)

lemma gdf_run:
  assumes "upload_frame up = Inr gs" and "{..<length gs} \<subseteq> set sched"
  shows "\<exists>out. run lib world producer sched (Some up) = Some out \<and>
           gdf out = (if list_all (is_valid lib) gs then validated lib gs
                      else set_geometry (filter (\<lambda>r. valid_fixed r = Some True)
                             (check_fixed lib (buffer_all lib (validated lib gs)))))"
  by (simp add: run_complete[OF assms] gdf_process fst_fix_invalid_geometries col_valid_validated)

lemma sample_shapes_distinct:
  "square \<noteq> bowtie" "bowtie_fixed \<noteq> bowtie" "Polygon [] \<noteq> bowtie"
  "Point c \<noteq> bowtie" "LineString cs \<noteq> bowtie"
  by (simp_all add: square_def bowtie_def bowtie_fixed_def)

lemma sample_is_valid:
  "is_valid sample_lib square" "\<not> is_valid sample_lib bowtie"
  "is_valid sample_lib bowtie_fixed" "is_valid sample_lib (Polygon [])"
  "is_valid sample_lib (Point c)" "is_valid sample_lib (LineString cs)"
  using sample_shapes_distinct by (simp_all add: sample_lib_def)

lemma sample_buffer0:
  "buffer0 sample_lib square = square" "buffer0 sample_lib bowtie = bowtie_fixed"
  "buffer0 sample_lib (Point c) = Polygon []"
  "buffer0 sample_lib (LineString cs) = Polygon []"
  using sample_shapes_distinct
  by (simp_all add: sample_lib_def) (simp_all add: square_def bowtie_def)

lemma upt_2: "[0..<2] = [0, 1]"
  by (simp add: numeral_2_eq_2)

lemma final_geometry_run:
  assumes "upload_frame up = Inr gs" and "{..<length gs} \<subseteq> set sched" and "i < length gs"
  shows "\<exists>out. run lib world producer sched (Some up) = Some out \<and>
           final_geometry (gdf out) i =
             (if list_all (is_valid lib) gs then Some (gs ! i)
              else if is_valid lib (buffer0 lib (gs ! i)) then Some (buffer0 lib (gs ! i))
              else None)"
proof -
  obtain out where "run lib world producer sched (Some up) = Some out"
    and "gdf out = (if list_all (is_valid lib) gs then validated lib gs
                      else set_geometry (filter (\<lambda>r. valid_fixed r = Some True)
                             (check_fixed lib (buffer_all lib (validated lib gs)))))"
    using gdf_run[OF assms(1,2)] by blast
  then show ?thesis
    using final_geometry_validated[OF assms(3), of lib] final_geometry_kept[OF assms(3), of lib]
    by simp
qed

section \<open>Properties of the effects\<close>










lemma send_kafka_event_returns: "\<exists>sent. send_kafka_event producer topic ev = Inr sent"
  by (simp add: send_kafka_event_def split: option.splits)





lemma geometries_validated: "map geometry (validated lib gs) = gs"
  by (intro nth_equalityI) (simp_all add: validated_def new_row_def)



lemma length_duplicates: "length (duplicates frame) = length frame"
  by (simp add: duplicates_def length_duplicated)

lemma duplicates_nth:
  assumes "i < length frame"
  shows "duplicates frame ! i =
         (\<exists>j<length frame. j \<noteq> i \<and> geometry (frame ! j) = geometry (frame ! i))"
proof -
  have "duplicated (map geometry frame) ! i =
        (\<exists>j<length (map geometry frame). j \<noteq> i \<and> map geometry frame ! j = map geometry frame ! i)"
    using duplicated_nth[of i "map geometry frame"] assms by simp
  also have "\<dots> = (\<exists>j<length frame. j \<noteq> i \<and> geometry (frame ! j) = geometry (frame ! i))"
    using assms by auto
  finally show ?thesis by (simp add: duplicates_def)
qed

lemma set_duplicate_geometries:
  "set (duplicate_geometries frame) = {frame ! i |i. i < length frame \<and> duplicates frame ! i}"
  by (auto simp: duplicate_geometries_def set_zip length_duplicates image_iff) force+







section \<open>Properties of publishing\<close>

lemma raised_process:
  "raised (process lib world producer name frame effs)
   = snd (map_visualization world (fst (fix_invalid_geometries lib frame)))"
  by (simp add: process_def publish_def caught_def Let_def send_kafka_event_def
           split: prod.splits option.splits sum.splits)


lemma gdf_run_any_producer:
  "map_option gdf (run lib world producer sched file)
   = map_option gdf (run lib world other sched file)"
  by (simp add: run_def gdf_process caught_def split: option.splits sum.splits)

lemma raised_run_any_producer:
  "map_option raised (run lib world producer sched file)
   = map_option raised (run lib world other sched file)"
  by (simp add: run_def raised_process caught_def split: option.splits sum.splits)

section \<open>The claims about validation\<close>

text \<open>
  Claim C3. The verdict of \<^verbatim>\<open>parallel_validate\<close> on a geometry: \<^verbatim>\<open>valid\<close> is the library's
  validity test; a valid geometry has no issue (\<open>None\<close>, not an empty text); an
  invalid geometry has an issue text, which is not empty when the library's explanation
  of that geometry is not empty; and the issue is present exactly when \<^verbatim>\<open>valid\<close> is false.
\<close>

theorem parallel_validate_issue:
  assumes "\<not> is_valid lib geom \<Longrightarrow> explain_validity lib geom \<noteq> []"
  shows "valid (parallel_validate lib geom) = is_valid lib geom \<and>
         (valid (parallel_validate lib geom) \<longrightarrow> issue (parallel_validate lib geom) = None) \<and>
         (\<not> valid (parallel_validate lib geom) \<longrightarrow>
            (\<exists>reason. issue (parallel_validate lib geom) = Some reason \<and> reason \<noteq> [])) \<and>
         ((issue (parallel_validate lib geom) \<noteq> None) = (\<not> valid (parallel_validate lib geom)))"
  using assms by (simp add: parallel_validate_def)

theorem parallel_validate_issue_witness:
  "explain_validity sample_lib bowtie \<noteq> [] \<and>
   valid (parallel_validate sample_lib bowtie) = False \<and>
   issue (parallel_validate sample_lib bowtie) = Some ''Ring Self-intersection[1 1]'' \<and>
   valid (parallel_validate sample_lib square) = True \<and>
   issue (parallel_validate sample_lib square) = None"
proof -
  have e: "explain_validity sample_lib bowtie = ''Ring Self-intersection[1 1]''"
    by (simp add: sample_lib_def)
  have b: "\<not> is_valid sample_lib bowtie"
    by (simp add: sample_lib_def)
  have s: "is_valid sample_lib square"
    by (simp add: sample_lib_def square_def bowtie_def)
  have "issue (parallel_validate sample_lib bowtie) \<noteq> None"
    using parallel_validate_issue[of sample_lib bowtie] b e by simp
  moreover have "issue (parallel_validate sample_lib square) = None"
    using parallel_validate_issue[of sample_lib square] s by simp
  ultimately show ?thesis
    using e b s by (auto simp: parallel_validate_def)
qed

text \<open>
  Claim C4. Whatever the order in which the workers finish the tasks, as long as every
  task is finished, the validation stage returns, and it returns one verdict per
  geometry, the \<open>i\<close>-th being the verdict of the \<open>i\<close>-th geometry.
\<close>

theorem executor_map_order:
  assumes "{..<length gs} \<subseteq> set sched"
  shows "\<exists>results. executor_map (parallel_validate lib) sched gs = Some results \<and>
           length results = length gs \<and>
           (\<forall>i<length gs. results ! i = parallel_validate lib (gs ! i))"
  using executor_map_complete[OF assms, of "parallel_validate lib"] by simp

theorem executor_map_order_witness:
  "{..<length [square, bowtie, Point (0, 0)]} \<subseteq> set [2, 0, 1] \<and>
   (\<exists>results. executor_map (parallel_validate sample_lib) [2, 0, 1] [square, bowtie, Point (0, 0)] = Some results \<and>
      length results = 3 \<and>
      valid (results ! 0) = True \<and> valid (results ! 1) = False \<and> valid (results ! 2) = True)"
proof -
  have h: "{..<length [square, bowtie, Point (0, 0)]} \<subseteq> set [2, 0, 1::nat]"
    by auto
  obtain results where r:
      "executor_map (parallel_validate sample_lib) [2, 0, 1] [square, bowtie, Point (0, 0)] = Some results"
      "length results = length [square, bowtie, Point (0, 0)]"
      "\<forall>i<length [square, bowtie, Point (0, 0)]. results ! i = parallel_validate sample_lib ([square, bowtie, Point (0, 0)] ! i)"
    using executor_map_order[OF h, of sample_lib] by blast
  have "results ! 0 = parallel_validate sample_lib square"
    and "results ! 1 = parallel_validate sample_lib bowtie"
    and "results ! 2 = parallel_validate sample_lib (Point (0, 0))"
    using r(3) by simp_all
  then have "valid (results ! 0) = True \<and> valid (results ! 1) = False \<and> valid (results ! 2) = True"
    by (simp add: parallel_validate_def sample_lib_def square_def bowtie_def)
  then show ?thesis using h r(1) r(2) by simp
qed

section \<open>The claims about the fixing stage\<close>

text \<open>
  Claim C1. In a run whose pool finishes every task, the zero-distance buffer is applied
  to the whole frame exactly when some geometry of the batch is invalid. If every geometry
  is valid, the kept frame holds every record with its original geometry and has no
  fixed columns. If some geometry is invalid, the kept frame holds exactly the records
  whose buffer is valid, each with its buffer as geometry, and every kept row carries
  the \<^verbatim>\<open>valid_fixed\<close> mark.
\<close>

theorem repair_batch_trigger:
  assumes "upload_frame up = Inr gs" and "{..<length gs} \<subseteq> set sched"
  shows "\<exists>out. run lib world producer sched (Some up) = Some out \<and>
           (if list_all (is_valid lib) gs
            then map (\<lambda>r. (index r, geometry r)) (gdf out) = zip [0..<length gs] gs \<and>
                 list_all (\<lambda>r. geometry_fixed r = None \<and> valid_fixed r = None) (gdf out)
            else map (\<lambda>r. (index r, geometry r)) (gdf out)
                   = filter (\<lambda>(i, g). is_valid lib g) (zip [0..<length gs] (map (buffer0 lib) gs)) \<and>
                 list_all (\<lambda>r. valid_fixed r = Some True) (gdf out))"
proof -
  obtain out where out: "run lib world producer sched (Some up) = Some out"
    and frame: "gdf out = (if list_all (is_valid lib) gs then validated lib gs
                      else set_geometry (filter (\<lambda>r. valid_fixed r = Some True)
                             (check_fixed lib (buffer_all lib (validated lib gs)))))"
    using gdf_run[OF assms] by blast
  show ?thesis
  proof (cases "list_all (is_valid lib) gs")
    case True
    then show ?thesis using out frame
      by (simp add: pairs_validated unfixed_validated)
  next
    case False
    then show ?thesis using out frame
      by (simp add: pairs_kept buffered_validated columns_kept)
  qed
qed

theorem repair_batch_trigger_witness:
  "upload_frame \<lparr>upload_name = ''shapes.geojson'', upload_frame = Inr [square, bowtie]\<rparr>
     = Inr [square, bowtie] \<and>
   {..<length [square, bowtie]} \<subseteq> set [1, 0] \<and>
   (\<exists>out. run sample_lib sample_env None [1, 0]
             (Some \<lparr>upload_name = ''shapes.geojson'', upload_frame = Inr [square, bowtie]\<rparr>) = Some out \<and>
          map (\<lambda>r. (index r, geometry r)) (gdf out) = [(0, square), (1, bowtie_fixed)] \<and>
          list_all (\<lambda>r. valid_fixed r = Some True) (gdf out))"
proof -
  let ?up = "\<lparr>upload_name = ''shapes.geojson'', upload_frame = Inr [square, bowtie]\<rparr>"
  have f: "upload_frame ?up = Inr [square, bowtie]" by simp
  have s: "{..<length [square, bowtie]} \<subseteq> set [1, 0::nat]" by auto
  show ?thesis
    using repair_batch_trigger[OF f s, of sample_lib sample_env None] f s
    by (simp add: sample_is_valid sample_buffer0 upt_2)
qed

text \<open>
  Claim C6, as amended. For a record whose original geometry is valid: if no geometry of
  the batch is invalid, the final geometry is the original one; if some geometry of the
  batch is invalid, the record is kept exactly when its zero-distance buffer is valid,
  and its final geometry is then that buffer. So the final geometry equals the original
  one wherever the buffer returns the geometry unchanged.
\<close>

theorem final_geometry_of_valid_record:
  assumes "upload_frame up = Inr gs" and "{..<length gs} \<subseteq> set sched"
    and "i < length gs" and "is_valid lib (gs ! i)"
  shows "\<exists>out. run lib world producer sched (Some up) = Some out \<and>
           final_geometry (gdf out) i =
             (if list_all (is_valid lib) gs then Some (gs ! i)
              else if is_valid lib (buffer0 lib (gs ! i)) then Some (buffer0 lib (gs ! i))
              else None) \<and>
           (buffer0 lib (gs ! i) = gs ! i \<longrightarrow> final_geometry (gdf out) i = Some (gs ! i))"
proof -
  obtain out where out: "run lib world producer sched (Some up) = Some out"
    "final_geometry (gdf out) i =
             (if list_all (is_valid lib) gs then Some (gs ! i)
              else if is_valid lib (buffer0 lib (gs ! i)) then Some (buffer0 lib (gs ! i))
              else None)"
    using final_geometry_run[OF assms(1,2,3)] by blast
  have "final_geometry (gdf out) i = Some (gs ! i)" if "buffer0 lib (gs ! i) = gs ! i"
    using out(2) that assms(4) by simp
  then show ?thesis using out by blast
qed

theorem final_geometry_of_valid_record_witness:
  "upload_frame \<lparr>upload_name = ''shapes.geojson'', upload_frame = Inr [square, bowtie]\<rparr>
     = Inr [square, bowtie] \<and>
   {..<length [square, bowtie]} \<subseteq> set [1, 0] \<and>
   0 < length [square, bowtie] \<and>
   is_valid sample_lib ([square, bowtie] ! 0) \<and>
   (\<exists>out. run sample_lib sample_env None [1, 0]
             (Some \<lparr>upload_name = ''shapes.geojson'', upload_frame = Inr [square, bowtie]\<rparr>) = Some out \<and>
          final_geometry (gdf out) 0 = Some square)"
proof -
  let ?up = "\<lparr>upload_name = ''shapes.geojson'', upload_frame = Inr [square, bowtie]\<rparr>"
  have f: "upload_frame ?up = Inr [square, bowtie]" by simp
  have s: "{..<length [square, bowtie]} \<subseteq> set [1, 0::nat]" by auto
  have i: "0 < length [square, bowtie]" by simp
  have v: "is_valid sample_lib ([square, bowtie] ! 0)" by (simp add: sample_is_valid)
  show ?thesis
    using final_geometry_of_valid_record[OF f s i v, of sample_env None] f s v
    by (auto simp: sample_is_valid sample_buffer0)
qed

theorem final_geometry_of_valid_record_counterexample:
  "(case run sample_lib sample_env None [0, 1]
           (Some \<lparr>upload_name = ''shapes.geojson'', upload_frame = Inr [Point (0, 0), bowtie]\<rparr>) of
      None \<Rightarrow> False
    | Some out \<Rightarrow>
        is_valid sample_lib (Point (0, 0)) \<and>
        final_geometry (gdf out) 0 = Some (Polygon []) \<and>
        Polygon [] \<noteq> Point (0, 0))"
proof -
  let ?up = "\<lparr>upload_name = ''shapes.geojson'', upload_frame = Inr [Point (0, 0), bowtie]\<rparr>"
  have f: "upload_frame ?up = Inr [Point (0, 0), bowtie]" by simp
  have s: "{..<length [Point (0, 0), bowtie]} \<subseteq> set [0, 1::nat]" by auto
  have i: "0 < length [Point (0, 0), bowtie]" by simp
  show ?thesis
    using final_geometry_run[OF f s i, of sample_lib sample_env None]
    by (auto simp: sample_is_valid sample_buffer0)
qed

text \<open>
  Claim C10. Take a library in which the zero-distance buffer of a point or of a line is
  empty and every empty geometry is valid, as in Shapely. When some geometry of the
  batch is invalid, a record whose original geometry is a point or a line is kept, and
  its final geometry is its buffer, which is empty; a point or a non-empty line is thus
  replaced by an empty geometry, not kept in its original shape.
\<close>

theorem non_areal_record_emptied:
  assumes "upload_frame up = Inr gs" and "{..<length gs} \<subseteq> set sched"
    and "\<not> list_all (is_valid lib) gs"
    and "i < length gs" and "gs ! i = Point c \<or> gs ! i = LineString cs"
    and "\<And>p. is_empty (buffer0 lib (Point p))"
    and "\<And>ps. is_empty (buffer0 lib (LineString ps))"
    and "\<And>g. is_empty g \<Longrightarrow> is_valid lib g"
  shows "\<exists>out. run lib world producer sched (Some up) = Some out \<and>
           final_geometry (gdf out) i = Some (buffer0 lib (gs ! i)) \<and>
           is_empty (buffer0 lib (gs ! i)) \<and>
           (\<not> is_empty (gs ! i) \<longrightarrow> final_geometry (gdf out) i \<noteq> Some (gs ! i))"
proof -
  have e: "is_empty (buffer0 lib (gs ! i))"
    using assms(5) assms(6)[of c] assms(7)[of cs] by auto
  then have v: "is_valid lib (buffer0 lib (gs ! i))"
    by (rule assms(8))
  obtain out where out: "run lib world producer sched (Some up) = Some out"
    "final_geometry (gdf out) i = Some (buffer0 lib (gs ! i))"
    using final_geometry_run[OF assms(1,2,4), of lib world producer] assms(3) v by auto
  have "final_geometry (gdf out) i \<noteq> Some (gs ! i)" if "\<not> is_empty (gs ! i)"
    using out(2) e that by auto
  then show ?thesis using out e by blast
qed

theorem non_areal_record_emptied_witness:
  "\<exists>out. run sample_lib sample_env None [0, 1]
            (Some \<lparr>upload_name = ''shapes.geojson'', upload_frame = Inr [Point (0, 0), bowtie]\<rparr>) = Some out \<and>
         final_geometry (gdf out) 0 = Some (Polygon []) \<and>
         is_empty (Polygon []) \<and>
         final_geometry (gdf out) 0 \<noteq> Some (Point (0, 0))"
proof -
  let ?up = "\<lparr>upload_name = ''shapes.geojson'', upload_frame = Inr [Point (0, 0), bowtie]\<rparr>"
  have f: "upload_frame ?up = Inr [Point (0, 0), bowtie]" by simp
  have s: "{..<length [Point (0, 0), bowtie]} \<subseteq> set [0, 1::nat]" by auto
  have n: "\<not> list_all (is_valid sample_lib) [Point (0, 0), bowtie]"
    by (simp add: sample_is_valid)
  have i: "0 < length [Point (0, 0), bowtie]" by simp
  have k: "[Point (0, 0), bowtie] ! 0 = Point (0, 0) \<or> [Point (0, 0), bowtie] ! 0 = LineString []"
    by simp
  have b1: "is_empty (buffer0 sample_lib (Point p))" for p
    by (simp add: sample_buffer0)
  have b2: "is_empty (buffer0 sample_lib (LineString ps))" for ps
    by (simp add: sample_buffer0)
  have b3: "is_valid sample_lib g" if "is_empty g" for g
    using that by (auto simp: sample_lib_def bowtie_def)
  show ?thesis
    using non_areal_record_emptied[OF f s n i k b1 b2 b3, of sample_env None]
    by (simp add: sample_buffer0)
qed



section \<open>The claim about duplicates\<close>

text \<open>
  Claim C5. The duplicate marking of a frame, in particular of the kept frame, marks a
  record exactly when another record of the frame has an equal geometry. Hence of two
  records with equal geometries both are marked, the first occurrence included, and no
  record is marked when the geometries are pairwise distinct. The rows the program
  reports as duplicates are the marked ones.
\<close>

theorem duplicates_marks:
  "length (duplicates frame) = length frame \<and>
   (\<forall>i<length frame. duplicates frame ! i =
      (\<exists>j<length frame. j \<noteq> i \<and> geometry (frame ! j) = geometry (frame ! i))) \<and>
   (\<forall>i j. i < j \<and> j < length frame \<and> geometry (frame ! i) = geometry (frame ! j) \<longrightarrow>
      duplicates frame ! i \<and> duplicates frame ! j) \<and>
   (distinct (map geometry frame) \<longrightarrow> duplicate_geometries frame = []) \<and>
   set (duplicate_geometries frame) = {frame ! i |i. i < length frame \<and> duplicates frame ! i}"
proof -
  have both: "duplicates frame ! i \<and> duplicates frame ! j"
    if "i < j \<and> j < length frame \<and> geometry (frame ! i) = geometry (frame ! j)" for i j
  proof -
    have "duplicates frame ! i"
      using that duplicates_nth[of i frame] by auto
    moreover have "duplicates frame ! j"
      using that duplicates_nth[of j frame] by (metis less_imp_le_nat less_le_trans nat_neq_iff)
    ultimately show ?thesis by simp
  qed
  have none: "duplicate_geometries frame = []" if d: "distinct (map geometry frame)"
  proof -
    have "\<not> duplicates frame ! i" if i: "i < length frame" for i
    proof
      assume "duplicates frame ! i"
      then obtain j where j: "j < length frame" "j \<noteq> i"
          "geometry (frame ! j) = geometry (frame ! i)"
        using duplicates_nth[OF i] by blast
      then show False
        using d i nth_eq_iff_index_eq[of "map geometry frame" j i] by simp
    qed
    then have "set (duplicate_geometries frame) = {}"
      by (auto simp: set_duplicate_geometries)
    then show ?thesis by simp
  qed
  show ?thesis
    using length_duplicates duplicates_nth both none set_duplicate_geometries by blast
qed

theorem duplicates_marks_witness:
  "duplicates (validated sample_lib [square, Point (0, 0), square]) = [True, False, True] \<and>
   map index (duplicate_geometries (validated sample_lib [square, Point (0, 0), square])) = [0, 2] \<and>
   length (duplicates (validated sample_lib [square, Point (0, 0), square]))
     = length (validated sample_lib [square, Point (0, 0), square])"
proof -
  let ?frame = "validated sample_lib [square, Point (0, 0), square]"
  have g: "map geometry ?frame = [square, Point (0, 0), square]"
    by (rule geometries_validated)
  have sp: "square \<noteq> Point (0, 0)" "Point (0, 0) \<noteq> square"
    by (simp_all add: square_def)
  have d: "duplicates ?frame = [True, False, True]"
    by (simp add: duplicates_def g duplicated_def sp numeral_3_eq_3)
  have ix: "map index ?frame = [0, 1, 2]"
    by (simp add: validated_def new_row_def upt_rec numeral_3_eq_3)
  have "?frame = [?frame ! 0, ?frame ! 1, ?frame ! 2]"
    by (intro nth_equalityI) (auto simp: validated_def less_Suc_eq numeral_3_eq_3 numeral_2_eq_2)
  then obtain a b c where abc: "?frame = [a, b, c]" by blast
  have "map index (duplicate_geometries ?frame) = [0, 2]"
    using ix d unfolding duplicate_geometries_def abc by simp
  then show ?thesis
    using d duplicates_marks[of ?frame] by simp
qed

section \<open>The claims about the event\<close>



text \<open>
  Claim C8. Sending the event never ends with an exception: whatever the producer does,
  \<^verbatim>\<open>send_kafka_event\<close> returns. When there is no producer, or when its \<^verbatim>\<open>send\<close> raises,
  the call does nothing but log one error. The kept frame of a run and the exception
  it ends with, if any, do not depend on the producer.
\<close>

theorem send_kafka_event_never_raises:
  "(\<exists>sent. send_kafka_event producer topic ev = Inr sent \<and>
      ((producer = None \<or> (\<exists>p e. producer = Some p \<and> send p topic ev = Some e)) \<longrightarrow>
         (\<exists>msg. sent = [Logging ERROR msg]))) \<and>
   map_option gdf (run lib world producer sched file)
     = map_option gdf (run lib world other sched file) \<and>
   map_option raised (run lib world producer sched file)
     = map_option raised (run lib world other sched file)"
proof -
  have "\<exists>sent. send_kafka_event producer topic ev = Inr sent \<and>
      ((producer = None \<or> (\<exists>p e. producer = Some p \<and> send p topic ev = Some e)) \<longrightarrow>
         (\<exists>msg. sent = [Logging ERROR msg]))"
    by (auto simp: send_kafka_event_def split: option.splits)
  then show ?thesis
    using gdf_run_any_producer raised_run_any_producer by blast
qed

theorem send_kafka_event_never_raises_witness:
  "(\<exists>msg. send_kafka_event
            (Some \<lparr>send = (\<lambda>topic ev. Some (Exception ''NoBrokersAvailable'')), flush = None\<rparr>)
            ''geojson_upload_events''
            \<lparr>filename = ''shapes.geojson'', timestamp = ''2025-01-01T00:00:00'',
             processing_time = 1, total_features = 2\<rparr>
          = Inr [Logging ERROR msg]) \<and>
   (\<exists>msg. send_kafka_event None ''geojson_upload_events''
            \<lparr>filename = ''shapes.geojson'', timestamp = ''2025-01-01T00:00:00'',
             processing_time = 1, total_features = 2\<rparr>
          = Inr [Logging ERROR msg])"
proof -
  let ?p = "\<lparr>send = (\<lambda>topic ev. Some (Exception ''NoBrokersAvailable'')), flush = None\<rparr>"
  let ?ev = "\<lparr>filename = ''shapes.geojson'', timestamp = ''2025-01-01T00:00:00'',
             processing_time = 1, total_features = 2\<rparr>"
  have a: "\<exists>msg. send_kafka_event (Some ?p) ''geojson_upload_events'' ?ev = Inr [Logging ERROR msg]"
    using send_kafka_event_never_raises[of "Some ?p" "''geojson_upload_events''" ?ev
            sample_lib sample_env "[]" None None]
    by auto
  have b: "\<exists>msg. send_kafka_event None ''geojson_upload_events'' ?ev = Inr [Logging ERROR msg]"
    using send_kafka_event_never_raises[of None "''geojson_upload_events''" ?ev
            sample_lib sample_env "[]" None None]
    by auto
  show ?thesis using a b by blast
qed

text \<open>
  Claim C9. A run over an empty batch returns, whatever the pool and the producer do,
  without an exception. The kept frame is empty; no invalid geometry and no duplicate
  is reported; no map is drawn, and the message that there are no valid geometries to
  visualize is shown instead; the event reports zero features.
\<close>

theorem empty_batch_reported:
  "\<exists>out sent.
      run lib world producer sched (Some \<lparr>upload_name = name, upload_frame = Inr []\<rparr>) = Some out \<and>
      send_kafka_event producer ''geojson_upload_events''
         \<lparr>filename = name, timestamp = event_timestamp world,
          processing_time = elapsed world, total_features = 0\<rparr> = Inr sent \<and>
      raised out = None \<and>
      gdf out = [] \<and>
      summary out = Some \<lparr>filename = name, timestamp = event_timestamp world,
                          processing_time = elapsed world, total_features = 0\<rparr> \<and>
      effects out =
        data_preview [] @
        [St_success [S ''All geometries are valid.''],
         Logger INFO [S ''All geometries are valid initially.''],
         St_subheader ''Duplicate Geometry Detection'',
         St_success [S ''No duplicate geometries detected.''],
         Logger INFO [S ''No duplicate geometries detected.''],
         St_subheader ''Interactive Map'',
         St_error [S ''No valid geometries to visualize.''],
         Logger ERROR [S ''No valid geometries to visualize after processing.''],
         St_info [S ''Processing time: '', T (elapsed world), S '' seconds'']] @ sent"
proof -
  let ?ev = "\<lparr>filename = name, timestamp = event_timestamp world,
              processing_time = elapsed world, total_features = 0\<rparr>"
  obtain sent where sent: "send_kafka_event producer ''geojson_upload_events'' ?ev = Inr sent"
    using send_kafka_event_returns by blast
  have e: "executor_map (parallel_validate lib) sched [] = Some []"
    by (simp add: executor_map_def)
  have a: "assign_verdicts [] [] = Inr []"
    by (simp add: assign_verdicts_def)
  have x: "fix_invalid_geometries lib [] =
      ([], [St_success [S ''All geometries are valid.''],
            Logger INFO [S ''All geometries are valid initially.'']])"
    by (simp add: fix_invalid_geometries_def)
  have d: "duplicate_detection [] =
      [St_subheader ''Duplicate Geometry Detection'',
       St_success [S ''No duplicate geometries detected.''],
       Logger INFO [S ''No duplicate geometries detected.'']]"
    by (simp add: duplicate_detection_def duplicate_geometries_def)
  have m: "map_visualization world [] =
      ([St_subheader ''Interactive Map'',
        St_error [S ''No valid geometries to visualize.''],
        Logger ERROR [S ''No valid geometries to visualize after processing.'']], None)"
    by (simp add: map_visualization_def)
  show ?thesis
    using sent
    by (simp add: run_def e a process_def x d m publish_def Let_def)
qed

end
